theory Spec2Isabelle
  imports Main "HOL-Library.Char_ord" "HOL-Library.List_Lexorder"
begin

section \<open>Values\<close>

text \<open>
  JSON-representable values.  A Python \<open>dict\<close> keeps its keys in insertion order and
  holds each key once, so an object is an association list; \<open>dict_keys_ok\<close> below
  says that no key occurs twice.
\<close>

datatype json =
    JNull
  | JBool bool
  | JInt int
  | JStr string
  | JList "json list"
  | JObj "(string \<times> json) list"

type_synonym document = "(string \<times> json) list"

text \<open>The exceptions of \<open>manage.py\<close>.  \<open>RuntimeError\<close> is what iterating a set raises
  when the set has changed size; \<open>External\<close> stands for whatever an external collaborator
  (storage backend, transport, a foreign callback) raises.\<close>

datatype exn =
    KeyError
  | RuntimeError
  | ProjectNoFoundException string
  | External string

subsection \<open>Python primitives that raise\<close>

definition dict_getitem :: "('k \<rightharpoonup> 'v) \<Rightarrow> 'k \<Rightarrow> exn + 'v" where
  "dict_getitem d k = (case d k of None \<Rightarrow> Inl KeyError | Some v \<Rightarrow> Inr v)"

definition dict_delitem :: "('k \<rightharpoonup> 'v) \<Rightarrow> 'k \<Rightarrow> exn + ('k \<rightharpoonup> 'v)" where
  "dict_delitem d k = (case d k of None \<Rightarrow> Inl KeyError | Some v \<Rightarrow> Inr (d(k := None)))"

definition set_remove :: "'a set \<Rightarrow> 'a \<Rightarrow> exn + 'a set" where
  "set_remove s x = (if x \<in> s then Inr (s - {x}) else Inl KeyError)"

text \<open>\<open>d[k] = v\<close> and \<open>d.update(k=v)\<close> on an insertion-ordered dict: an existing key keeps
  its place, a new key goes to the end.\<close>

fun dict_setitem :: "('k \<times> 'v) list \<Rightarrow> 'k \<Rightarrow> 'v \<Rightarrow> ('k \<times> 'v) list" where
  "dict_setitem [] k v = [(k, v)]"
| "dict_setitem ((k', v') # d) k v =
     (if k' = k then (k, v) # d else (k', v') # dict_setitem d k v)"

text \<open>\<open>dict(pairs)\<close>: later pairs overwrite earlier ones with the same key.\<close>

definition dict_of :: "('k \<times> 'v) list \<Rightarrow> ('k \<times> 'v) list" where
  "dict_of ps = foldl (\<lambda>d (k, v). dict_setitem d k v) [] ps"

section \<open>Message\<close>

record request =
  headers :: "(string \<times> string) list"

text \<open>
  The attributes \<open>data\<close> and \<open>context\<close> of a message hold references to dict objects:
  \<open>attr.s\<close> stores what the caller passes and copies nothing, so two attributes, or two
  messages, may hold the same dict.  A dict object is an address, and the heap gives the
  content of every dict object.  \<open>lut\<close> is what \<open>convert_dt\<close> stored: a point in time, or
  \<open>None\<close>.  The attribute \<open>context\<close> is the field \<open>context_field\<close>.
\<close>

type_synonym addr = nat

type_synonym heap = "addr \<Rightarrow> document"

type_synonym timestamp = "int option"

record Message =
  request :: request
  message_type :: string
  config_name :: string
  hash_code :: string
  data :: addr
  context_field :: addr
  lut :: timestamp

definition MT_NO_CHANGE :: string where "MT_NO_CHANGE = ''nochange''"
definition MT_CHANGED :: string where "MT_CHANGED = ''changed''"

text \<open>
  The two \<open>default=dict()\<close> of the class body are evaluated once, when the class is
  created: one dict object is the \<open>data\<close> of every message built without \<open>data\<close>, another
  the \<open>context\<close> of every message built without \<open>context\<close>.
\<close>

definition default_data :: addr where "default_data = 0"
definition default_context :: addr where "default_context = 1"

text \<open>The generated \<open>__init__\<close>; the \<open>instance_of\<close> validators hold by the types.\<close>

definition Message_init ::
  "request \<Rightarrow> string \<Rightarrow> string \<Rightarrow> string \<Rightarrow> addr option \<Rightarrow> addr option \<Rightarrow> timestamp \<Rightarrow> Message" where
  "Message_init req mtype cname hcode d c l =
     \<lparr>request = req, message_type = mtype, config_name = cname, hash_code = hcode,
      data = (case d of None \<Rightarrow> default_data | Some a \<Rightarrow> a),
      context_field = (case c of None \<Rightarrow> default_context | Some a \<Rightarrow> a),
      lut = l\<rparr>"

text \<open>
  A method returns its result, the message and the heap as the call leaves them.
  \<open>to_dict\<close> binds the local name \<open>context\<close> to the dict object held in \<open>self.context\<close> and
  calls \<open>update\<close> on it: the object changes in place, for every attribute and every message
  that holds it.  The dict it returns is built after that, so its \<open>data\<close> and \<open>context\<close>
  are read from the heap as updated.  \<open>json.dumps\<close> and \<open>strftime\<close> are parameters.
\<close>

definition to_dict ::
  "(nat \<Rightarrow> json \<Rightarrow> string) \<Rightarrow> (timestamp \<Rightarrow> json) \<Rightarrow> nat \<Rightarrow> Message \<Rightarrow> heap \<Rightarrow>
   json \<times> Message \<times> heap" where
  "to_dict dumps_indent strftime indent self h =
     (let context = context_field self;
          h' = h(context := dict_setitem (h context) ''headers''
                 (JObj (dict_of (map (\<lambda>(k, v). (k, JStr v)) (headers (request self))))))
      in (JObj [(''message_type'', JStr (message_type self)),
                (''config_name'', JStr (Message.config_name self)),
                (''hash_code'', JStr (hash_code self)),
                (''data'', JObj (h' (data self))),
                (''context'', if indent \<noteq> 0 then JStr (dumps_indent indent (JObj (h' context)))
                              else JObj (h' context)),
                (''lut'', strftime (lut self))],
          self, h'))"

text \<open>What \<open>to_string\<close> serialises, from the values of the four attributes it reads.\<close>

definition message_string ::
  "(json \<Rightarrow> string) \<Rightarrow> string \<Rightarrow> string \<Rightarrow> string \<Rightarrow> document \<Rightarrow> string" where
  "message_string dumps mtype cname hcode d =
     dumps (JObj [(''message_type'', JStr mtype),
                  (''config_name'', JStr cname),
                  (''hash_code'', JStr hcode),
                  (''data'', JObj d)])"


section \<open>ConfigManager\<close>

text \<open>
  The storage backend (\<open>rtconfig.backend\<close>) is an external collaborator: its \<open>read\<close>
  and \<open>write\<close> (\<open>backend_read\<close>, \<open>backend_write\<close>) act on the stored state \<open>'b\<close> and may raise.  A \<open>write\<close> that raises may
  still have touched the storage, so it returns the storage with the exception.
\<close>

record 'b BaseBackend =
  backend_read :: "'b \<Rightarrow> exn + document"
  backend_write :: "'b \<Rightarrow> document \<Rightarrow> exn option \<times> 'b"

text \<open>The attribute \<open>_source_data\<close> is the field \<open>source_data\<close>; the property and its
  setter read and write it.\<close>

record ConfigManager =
  config_name :: string
  source_data :: document

definition refresh ::
  "'b BaseBackend \<Rightarrow> 'b \<Rightarrow> ConfigManager \<Rightarrow> exn option \<times> ConfigManager" where
  "refresh store_backend st self =
     (case backend_read store_backend st of
        Inl e \<Rightarrow> (Some e, self)
      | Inr d \<Rightarrow> (None, self\<lparr>source_data := d\<rparr>))"

definition source_data_setter :: "document \<Rightarrow> ConfigManager \<Rightarrow> ConfigManager" where
  "source_data_setter v self = self\<lparr>source_data := v\<rparr>"

text \<open>The property \<open>ConfigManager.hash_code\<close>; \<open>to_hash\<close> of \<open>rtconfig.utils\<close> is a
  parameter.\<close>

definition cm_hash_code :: "(document \<Rightarrow> string) \<Rightarrow> ConfigManager \<Rightarrow> string" where
  "cm_hash_code to_hash self = to_hash (source_data self)"

text \<open>
  \<open>config_message\<close> builds a \<open>Message\<close> whose \<open>data\<close> is the manager's document and
  returns its \<open>to_string\<close> at once; the message is not kept.  \<open>to_string\<close> reads the message
  type, the config name, the fingerprint and the content of \<open>data\<close>.
\<close>

definition config_message ::
  "(json \<Rightarrow> string) \<Rightarrow> (document \<Rightarrow> string) \<Rightarrow> ConfigManager \<Rightarrow> request \<Rightarrow> string" where
  "config_message dumps to_hash self req =
     message_string dumps MT_CHANGED (ConfigManager.config_name self)
       (cm_hash_code to_hash self) (source_data self)"

text \<open>
  The loop of \<open>update_config\<close> over the class-level set \<open>_notify_handler\<close>.  The set is
  given by the list of its members in the order the iteration yields them; \<open>call h\<close> is
  the callback \<open>h\<close>, acting on the rest of the program state \<open>'w\<close>.  The last component
  of the result records the calls made, in order, each with the manager it was given.
\<close>

fun notify_handlers ::
  "('h \<Rightarrow> ConfigManager \<Rightarrow> 'w \<Rightarrow> exn option \<times> 'w) \<Rightarrow> 'h list \<Rightarrow> ConfigManager \<Rightarrow> 'w \<Rightarrow>
   ('h \<times> ConfigManager) list \<Rightarrow> exn option \<times> 'w \<times> ('h \<times> ConfigManager) list" where
  "notify_handlers call [] self w calls = (None, w, calls)"
| "notify_handlers call (handler # rest) self w calls =
     (case call handler self w of
        (Some e, w') \<Rightarrow> (Some e, w', calls @ [(handler, self)])
      | (None, w') \<Rightarrow> notify_handlers call rest self w' (calls @ [(handler, self)]))"

text \<open>\<open>update_config\<close>: the exception raised, if any, then the manager, the storage, the
  rest of the state and the callback calls as the call leaves them.\<close>

definition update_config ::
  "'b BaseBackend \<Rightarrow> ('h \<Rightarrow> ConfigManager \<Rightarrow> 'w \<Rightarrow> exn option \<times> 'w) \<Rightarrow> 'h list \<Rightarrow>
   ConfigManager \<Rightarrow> 'b \<Rightarrow> 'w \<Rightarrow>
   exn option \<times> ConfigManager \<times> 'b \<times> 'w \<times> ('h \<times> ConfigManager) list" where
  "update_config store_backend call handlers self st w =
     (case backend_write store_backend st (source_data self) of
        (Some e, st') \<Rightarrow> (Some e, self, st', w, [])
      | (None, st') \<Rightarrow>
          (case refresh store_backend st' self of
             (Some e, self') \<Rightarrow> (Some e, self', st', w, [])
           | (None, self') \<Rightarrow>
               (case notify_handlers call handlers self' w [] of
                  (r, w', calls) \<Rightarrow> (r, self', st', w', calls))))"

text \<open>An update with document \<open>D\<close>: the setter, then \<open>update_config\<close>.\<close>

definition update ::
  "'b BaseBackend \<Rightarrow> ('h \<Rightarrow> ConfigManager \<Rightarrow> 'w \<Rightarrow> exn option \<times> 'w) \<Rightarrow> 'h list \<Rightarrow>
   document \<Rightarrow> ConfigManager \<Rightarrow> 'b \<Rightarrow> 'w \<Rightarrow>
   exn option \<times> ConfigManager \<times> 'b \<times> 'w \<times> ('h \<times> ConfigManager) list" where
  "update store_backend call handlers D self st w =
     update_config store_backend call handlers (source_data_setter D self) st w"


section \<open>The module-level registries\<close>

record 'ws globals =
  connected :: "string \<rightharpoonup> 'ws set"
  connected_message :: "'ws \<rightharpoonup> Message"
  config_store_state :: "string \<rightharpoonup> ConfigManager"

text \<open>
  \<open>register_connected_ws\<close>: the only statement of the \<open>try\<close> block that can raise
  \<open>KeyError\<close> is the lookup \<open>connected[message.config_name]\<close>; the handler turns it
  into \<open>ProjectNoFoundException\<close>.  The result is the exception raised, if any, and the
  globals as the call leaves them.
\<close>

definition register_connected_ws ::
  "Message \<Rightarrow> 'ws \<Rightarrow> 'ws globals \<Rightarrow> exn option \<times> 'ws globals" where
  "register_connected_ws message ws g =
     (case dict_getitem (connected g) (Message.config_name message) of
        Inl KeyError \<Rightarrow> (Some (ProjectNoFoundException (Message.config_name message)), g)
      | Inl e \<Rightarrow> (Some e, g)
      | Inr s \<Rightarrow>
          (let g1 = (if ws \<notin> s
                     then g\<lparr>connected := (connected g)(Message.config_name message \<mapsto> insert ws s)\<rparr>
                     else g)
           in (None, g1\<lparr>connected_message := (connected_message g1)(ws \<mapsto> message)\<rparr>)))"

text \<open>
  \<open>remove_connected_ws\<close>: two \<open>try\<close> blocks, each catching \<open>KeyError\<close> only.  In the
  first, both the lookup of the set and \<open>set.remove\<close> can raise it.
\<close>

definition remove_from_set :: "string \<Rightarrow> 'ws \<Rightarrow> 'ws globals \<Rightarrow> exn + 'ws globals" where
  "remove_from_set name ws g =
     (case dict_getitem (connected g) name of
        Inl e \<Rightarrow> Inl e
      | Inr s \<Rightarrow>
          (case set_remove s ws of
             Inl e \<Rightarrow> Inl e
           | Inr s' \<Rightarrow> Inr (g\<lparr>connected := (connected g)(name \<mapsto> s')\<rparr>)))"

definition remove_message :: "'ws \<Rightarrow> 'ws globals \<Rightarrow> exn + 'ws globals" where
  "remove_message ws g =
     (case dict_delitem (connected_message g) ws of
        Inl e \<Rightarrow> Inl e
      | Inr d \<Rightarrow> Inr (g\<lparr>connected_message := d\<rparr>))"

definition except_KeyError_pass :: "'s \<Rightarrow> exn + 's \<Rightarrow> exn option \<times> 's" where
  "except_KeyError_pass g r =
     (case r of
        Inr g' \<Rightarrow> (None, g')
      | Inl KeyError \<Rightarrow> (None, g)
      | Inl e \<Rightarrow> (Some e, g))"

definition remove_connected_ws ::
  "string \<Rightarrow> 'ws \<Rightarrow> 'ws globals \<Rightarrow> exn option \<times> 'ws globals" where
  "remove_connected_ws name ws g =
     (case except_KeyError_pass g (remove_from_set name ws g) of
        (Some e, g1) \<Rightarrow> (Some e, g1)
      | (None, g1) \<Rightarrow> except_KeyError_pass g1 (remove_message ws g1))"

section \<open>Sequences of registry calls\<close>

datatype 'ws registry_call =
    Register Message 'ws
  | Remove string 'ws

fun registry_step :: "'ws registry_call \<Rightarrow> 'ws globals \<Rightarrow> 'ws globals" where
  "registry_step (Register message ws) g = snd (register_connected_ws message ws g)"
| "registry_step (Remove name ws) g = snd (remove_connected_ws name ws g)"

definition registry_run :: "'ws registry_call list \<Rightarrow> 'ws globals \<Rightarrow> 'ws globals" where
  "registry_run calls g = foldl (\<lambda>g c. registry_step c g) g calls"

text \<open>Every connection with a stored message is in the subscriber set of that message's
  config name.\<close>

definition registry_consistent :: "'ws globals \<Rightarrow> bool" where
  "registry_consistent g =
     (\<forall>ws \<in> dom (connected_message g).
        case connected_message g ws of
          None \<Rightarrow> False
        | Some message \<Rightarrow>
            (case connected g (Message.config_name message) of
               None \<Rightarrow> False
             | Some s \<Rightarrow> ws \<in> s))"

section \<open>Dispatch\<close>

text \<open>
  The transport is external, and \<open>await client.send(...)\<close> suspends the pass: other tasks
  run meanwhile, and what they can do to \<open>connected\<close> and \<open>connected_message\<close> is to call
  \<open>register_connected_ws\<close> and \<open>remove_connected_ws\<close>.  \<open>during_send client g\<close> are the calls
  they make while the send to \<open>client\<close> is awaited, from the globals \<open>g\<close>.  The send then
  either raises (\<open>send_fails client = Some e\<close>, say for a connection that has gone away) or
  delivers: the outbox lists what each connection has been sent by the pass, in order.
\<close>

type_synonym 'ws outbox = "('ws \<times> string) list"

text \<open>
  What surrounds a pass: the order in which a set iterator yields (\<open>iter_resume\<close>, see
  below), which sends raise (\<open>send_fails\<close>), what other tasks do meanwhile (\<open>during_send\<close>),
  and the library functions \<open>json.dumps\<close> and \<open>to_hash\<close>.
\<close>

record 'ws surroundings =
  iter_resume :: "'ws set \<Rightarrow> 'ws list \<Rightarrow> 'ws list"
  send_fails :: "'ws \<Rightarrow> exn option"
  during_send :: "'ws \<Rightarrow> 'ws globals \<Rightarrow> 'ws registry_call list"
  json_dumps :: "json \<Rightarrow> string"
  to_hash_of :: "document \<Rightarrow> string"

definition client_send ::
  "'ws surroundings \<Rightarrow> 'ws \<Rightarrow> string \<Rightarrow> 'ws globals \<times> 'ws outbox \<Rightarrow>
   exn option \<times> 'ws globals \<times> 'ws outbox" where
  "client_send env client payload w =
     (let g' = registry_run (during_send env client (fst w)) (fst w)
      in case send_fails env client of
           Some e \<Rightarrow> (Some e, g', snd w)
         | None \<Rightarrow> (None, g', snd w @ [(client, payload)]))"

text \<open>The set object the loop runs over, as it is in the globals \<open>g\<close>.  Registering and
  removing change the set in place and never unbind it from its name.\<close>

definition live_clients :: "'ws globals \<Rightarrow> ConfigManager \<Rightarrow> 'ws set" where
  "live_clients g config_store =
     (case connected g (ConfigManager.config_name config_store) of
        None \<Rightarrow> {}
      | Some s \<Rightarrow> s)"

text \<open>
  The \<open>for\<close> loop of \<open>notify_changed\<close> runs over the set object \<open>connected[name]\<close> itself,
  not over a copy.  Each step of a set iterator first compares the size of the set with
  the size it had when the iteration began (\<open>used\<close>) and raises \<open>RuntimeError\<close> when they
  differ; otherwise it yields the next member, or ends.  \<open>iter_resume s yielded\<close> are the members
  the iterator has still to yield, in order, when the set is \<open>s\<close> and it has yielded
  \<open>yielded\<close> so far: for a set that has not changed, the rest of its iteration order; for one
  that has changed and kept its size, whatever its hash table gives.  The body reads
  \<open>connected_message\<close> as it is at that step.  A stored message is an object without
  \<open>__bool__\<close> or \<open>__len__\<close>, hence true; \<open>connected_message.get\<close> gives \<open>None\<close> for a
  connection without one.  The result is \<open>None\<close> when the loop does not end.
\<close>

partial_function (option) notify_clients ::
  "'ws surroundings \<Rightarrow> ConfigManager \<Rightarrow> nat \<Rightarrow> 'ws list \<Rightarrow> 'ws globals \<times> 'ws outbox \<Rightarrow>
   (exn option \<times> 'ws globals \<times> 'ws outbox) option" where
  "notify_clients env config_store used yielded w =
     (if card (live_clients (fst w) config_store) \<noteq> used then Some (Some RuntimeError, w)
      else (case iter_resume env (live_clients (fst w) config_store) yielded of
              [] \<Rightarrow> Some (None, w)
            | client # rest \<Rightarrow>
                (case connected_message (fst w) client of
                   None \<Rightarrow> notify_clients env config_store used (yielded @ [client]) w
                 | Some message \<Rightarrow>
                     if \<not> (Message.config_name message = ConfigManager.config_name config_store)
                     then notify_clients env config_store used (yielded @ [client]) w
                     else if cm_hash_code (to_hash_of env) config_store \<noteq> hash_code message
                     then notify_clients env config_store used (yielded @ [client]) w
                     else (case client_send env client
                                  (config_message (json_dumps env) (to_hash_of env) config_store
                                     (request message)) w of
                             (Some e, w') \<Rightarrow> Some (Some e, w')
                           | (None, w') \<Rightarrow>
                               notify_clients env config_store used (yielded @ [client]) w'))))"

text \<open>
  \<open>notify_changed\<close>.  \<open>connected.get(name) or []\<close> is a new empty list for a missing and for
  an empty set, and the loop over it does nothing; otherwise the loop starts on the set
  with its size at that moment.
\<close>

definition notify_changed ::
  "'ws surroundings \<Rightarrow> ConfigManager \<Rightarrow> 'ws globals \<times> 'ws outbox \<Rightarrow>
   (exn option \<times> 'ws globals \<times> 'ws outbox) option" where
  "notify_changed env config_store w =
     (let g = (fst w)\<lparr>config_store_state :=
                 (config_store_state (fst w))(ConfigManager.config_name config_store \<mapsto> config_store)\<rparr>
      in case connected g (ConfigManager.config_name config_store) of
           None \<Rightarrow> Some (None, g, snd w)
         | Some s \<Rightarrow>
             if s = {} then Some (None, g, snd w)
             else notify_clients env config_store (card s) [] (g, snd w))"




section \<open>The fingerprint\<close>

text \<open>A well-formed value: no dict holds a key twice.\<close>

fun dict_keys_ok :: "json \<Rightarrow> bool" where
  "dict_keys_ok (JObj kvs) = (distinct (map fst kvs) \<and> (\<forall>(k, v) \<in> set kvs. dict_keys_ok v))"
| "dict_keys_ok (JList xs) = (\<forall>x \<in> set xs. dict_keys_ok x)"
| "dict_keys_ok j = True"

text \<open>Equal key/value content: the same keys with values of the same content, in any
  order of the keys; lists agree element by element.\<close>

fun same_content :: "json \<Rightarrow> json \<Rightarrow> bool" where
  "same_content (JObj xs) (JObj ys) =
     (length xs = length ys \<and>
      (\<forall>(k, v) \<in> set xs. \<exists>(k', w) \<in> set ys. k' = k \<and> same_content v w))"
| "same_content (JList xs) (JList ys) = list_all2 same_content xs ys"
| "same_content a b = (a = b)"

text \<open>
  Modelled from the spec: \<open>to_hash\<close> of \<open>rtconfig.utils\<close> is not among the sources.  The
  spec (4.1) has it canonicalize the document (sort keys recursively, serialize to a fixed
  textual form) and then apply a stable hash or digest.  \<open>canonical\<close> sorts the keys at every
  level; the serialization and the digest together are the parameter \<open>digest\<close>.
\<close>

fun canonical :: "json \<Rightarrow> json" where
  "canonical (JObj kvs) = JObj (sort_key fst (map (\<lambda>(k, v). (k, canonical v)) kvs))"
| "canonical (JList xs) = JList (map canonical xs)"
| "canonical j = j"

text \<open>Modelled from the spec: \<open>to_hash\<close> of \<open>rtconfig.utils\<close>, as the spec (4.1) describes
  it: the digest of the canonical form.\<close>

definition to_hash :: "(json \<Rightarrow> string) \<Rightarrow> document \<Rightarrow> string" where
  "to_hash digest d = digest (canonical (JObj d))"

section \<open>Example values\<close>

definition example_message :: Message where
  "example_message =
     \<lparr>request = \<lparr>headers = [(''Host'', ''a'')]\<rparr>, message_type = ''nochange'',
      config_name = ''app'', hash_code = ''h1'', data = 2, context_field = 3, lut = None\<rparr>"

definition stray_message :: Message where
  "stray_message =
     \<lparr>request = \<lparr>headers = []\<rparr>, message_type = ''nochange'',
      config_name = ''missing'', hash_code = ''h1'', data = 2, context_field = 3, lut = None\<rparr>"

definition example_globals :: "nat globals" where
  "example_globals =
     \<lparr>connected = [''app'' \<mapsto> {}], connected_message = Map.empty,
      config_store_state = Map.empty\<rparr>"

text \<open>A digest that depends on the order of the keys it is given.\<close>

fun example_digest :: "json \<Rightarrow> string" where
  "example_digest (JObj kvs) =
     concat (map (\<lambda>(k, v). k @ '':'' @ example_digest v @ '';'') kvs)"
| "example_digest (JList xs) = concat (map example_digest xs)"
| "example_digest (JStr s) = s"
| "example_digest j = ''?''"


definition failing_backend :: "document BaseBackend" where
  "failing_backend =
     \<lparr>backend_read = (\<lambda>st. Inr st),
      backend_write = (\<lambda>st d. (Some (External ''disk full''), st))\<rparr>"

definition example_manager :: ConfigManager where
  "example_manager = \<lparr>config_name = ''app'', source_data = [(''a'', JInt 1)]\<rparr>"

definition reordered_manager :: ConfigManager where
  "reordered_manager =
     \<lparr>config_name = ''app'',
      source_data = [(''b'', JObj [(''y'', JNull), (''x'', JInt 3)]), (''a'', JInt 1)]\<rparr>"

definition sorted_manager :: ConfigManager where
  "sorted_manager =
     \<lparr>config_name = ''app'',
      source_data = [(''a'', JInt 1), (''b'', JObj [(''x'', JInt 3), (''y'', JNull)])]\<rparr>"

text \<open>Callbacks: number \<open>0\<close> raises, every other one counts its call in the state.\<close>

definition example_call :: "nat \<Rightarrow> ConfigManager \<Rightarrow> nat \<Rightarrow> exn option \<times> nat" where
  "example_call h self w = (if h = 0 then (Some (External ''boom''), w) else (None, Suc w))"

text \<open>
  A set iterator that yields the members not yet yielded in the order \<open>1\<close>, \<open>2\<close>, \<open>3\<close>, and
  a registry with three subscribers of \<open>app\<close>: two hold the fingerprint of
  \<open>example_manager\<close>, the third another one.
\<close>

definition example_resume :: "nat set \<Rightarrow> nat list \<Rightarrow> nat list" where
  "example_resume s yielded = filter (\<lambda>c. c \<in> s \<and> c \<notin> set yielded) [1, 2, 3]"

definition current_message :: Message where
  "current_message =
     \<lparr>request = \<lparr>headers = []\<rparr>, message_type = ''nochange'',
      config_name = ''app'', hash_code = ''a:?;'', data = 2, context_field = 3, lut = None\<rparr>"

definition dispatch_globals :: "nat globals" where
  "dispatch_globals =
     \<lparr>connected = [''app'' \<mapsto> {1, 2, 3}],
      connected_message = [1 \<mapsto> current_message, 2 \<mapsto> current_message, 3 \<mapsto> example_message],
      config_store_state = Map.empty\<rparr>"



definition racing_surroundings :: "nat surroundings" where
  "racing_surroundings =
     \<lparr>iter_resume = example_resume, send_fails = (\<lambda>c. None),
      during_send = (\<lambda>c g. if c = 1 then [Remove ''app'' 3] else []),
      json_dumps = example_digest, to_hash_of = to_hash example_digest\<rparr>"





section \<open>The subscriber registry\<close>

lemma register_unknown:
  "connected g (Message.config_name message) = None \<Longrightarrow>
   register_connected_ws message ws g =
     (Some (ProjectNoFoundException (Message.config_name message)), g)"
  by (simp add: register_connected_ws_def dict_getitem_def)

lemma register_known:
  "connected g (Message.config_name message) = Some s \<Longrightarrow>
   register_connected_ws message ws g =
     (None, g\<lparr>connected := (connected g)(Message.config_name message \<mapsto> insert ws s),
              connected_message := (connected_message g)(ws \<mapsto> message)\<rparr>)"
  by (auto simp add: register_connected_ws_def dict_getitem_def Let_def insert_absorb fun_upd_idem)

lemma remove_from_set_cases:
  "remove_from_set name ws g =
     (case connected g name of
        None \<Rightarrow> Inl KeyError
      | Some s \<Rightarrow> if ws \<in> s then Inr (g\<lparr>connected := (connected g)(name \<mapsto> s - {ws})\<rparr>)
                  else Inl KeyError)"
  by (simp add: remove_from_set_def dict_getitem_def set_remove_def split: option.splits)

lemma remove_message_cases:
  "remove_message ws g =
     (if ws \<in> dom (connected_message g)
      then Inr (g\<lparr>connected_message := (connected_message g)(ws := None)\<rparr>)
      else Inl KeyError)"
  by (auto simp add: remove_message_def dict_delitem_def split: option.splits)

lemma remove_connected_ws_eq:
  "remove_connected_ws name ws g =
     (None, g\<lparr>connected := (case connected g name of
                               None \<Rightarrow> connected g
                             | Some s \<Rightarrow> (connected g)(name \<mapsto> s - {ws})),
              connected_message := (connected_message g)(ws := None)\<rparr>)"
proof -
  have a: "(connected_message g)(ws := None) = connected_message g" if "ws \<notin> dom (connected_message g)"
    using that by (auto simp: fun_upd_idem)
  have b: "(connected g)(name \<mapsto> s - {ws}) = connected g" if "connected g name = Some s" "ws \<notin> s" for s
    using that by (auto simp: fun_upd_idem)
  show ?thesis
    by (cases "connected g name")
       (auto simp add: remove_connected_ws_def except_KeyError_pass_def
          remove_from_set_cases remove_message_cases a b domIff map_upd_triv)
qed

lemma registry_consistent_iff:
  "registry_consistent g \<longleftrightarrow>
     (\<forall>ws message. connected_message g ws = Some message \<longrightarrow>
        (\<exists>s. connected g (Message.config_name message) = Some s \<and> ws \<in> s))"
proof
  assume c: "registry_consistent g"
  show "\<forall>ws message. connected_message g ws = Some message \<longrightarrow>
        (\<exists>s. connected g (Message.config_name message) = Some s \<and> ws \<in> s)"
  proof (intro allI impI)
    fix ws message
    assume m: "connected_message g ws = Some message"
    then have "ws \<in> dom (connected_message g)" by blast
    with c have "case connected_message g ws of
          None \<Rightarrow> False
        | Some message \<Rightarrow>
            (case connected g (Message.config_name message) of
               None \<Rightarrow> False
             | Some s \<Rightarrow> ws \<in> s)"
      unfolding registry_consistent_def by blast
    with m show "\<exists>s. connected g (Message.config_name message) = Some s \<and> ws \<in> s"
      by (simp split: option.splits)
  qed
next
  assume "\<forall>ws message. connected_message g ws = Some message \<longrightarrow>
        (\<exists>s. connected g (Message.config_name message) = Some s \<and> ws \<in> s)"
  then show "registry_consistent g"
    unfolding registry_consistent_def by (fastforce split: option.splits)
qed

lemma register_consistent:
  assumes "registry_consistent g"
  shows "registry_consistent (snd (register_connected_ws message ws g))"
proof (cases "connected g (Message.config_name message)")
  case None
  then show ?thesis using assms by (simp add: register_unknown)
next
  case (Some s)
  show ?thesis
  proof -
    have "\<exists>s'. connected (snd (register_connected_ws message ws g)) (Message.config_name m') = Some s' \<and> ws' \<in> s'"
      if h: "connected_message (snd (register_connected_ws message ws g)) ws' = Some m'" for ws' m'
    proof (cases "ws' = ws")
      case True
      with h have "m' = message" by (simp add: register_known [OF Some])
      then show ?thesis using True by (simp add: register_known [OF Some])
    next
      case False
      with h have "connected_message g ws' = Some m'" by (simp add: register_known [OF Some])
      with assms obtain s' where "connected g (Message.config_name m') = Some s'" "ws' \<in> s'"
        unfolding registry_consistent_iff by blast
      then show ?thesis using Some by (auto simp add: register_known [OF Some])
    qed
    then show ?thesis unfolding registry_consistent_iff by blast
  qed
qed

lemma remove_consistent:
  assumes "registry_consistent g"
  shows "registry_consistent (snd (remove_connected_ws name ws g))"
proof -
  have "\<exists>s'. connected (snd (remove_connected_ws name ws g)) (Message.config_name m') = Some s' \<and> ws' \<in> s'"
    if h: "connected_message (snd (remove_connected_ws name ws g)) ws' = Some m'" for ws' m'
  proof -
    from h have ne: "ws' \<noteq> ws" and m: "connected_message g ws' = Some m'"
      by (auto simp add: remove_connected_ws_eq split: if_splits)
    from m assms obtain s' where s': "connected g (Message.config_name m') = Some s'" "ws' \<in> s'"
      unfolding registry_consistent_iff by blast
    show ?thesis
      using s' ne by (cases "connected g name") (auto simp add: remove_connected_ws_eq)
  qed
  then show ?thesis unfolding registry_consistent_iff by blast
qed

lemma registry_step_consistent:
  "registry_consistent g \<Longrightarrow> registry_consistent (registry_step c g)"
  by (cases c) (simp_all add: register_consistent remove_consistent)

text \<open>
  Claim C5.  \<open>register_connected_ws\<close> raises the config-not-found exception exactly when
  \<open>message.config_name\<close> has no entry in \<open>connected\<close>, and raises nothing otherwise.  On
  success the connection is in that config's subscriber set (the set is unchanged when it
  was there already), \<open>connected_message[ws]\<close> is the given message, the manager table is
  untouched, and registering a second time gives the same result and state as registering
  once.
\<close>

theorem register_connected_ws_spec:
  "(fst (register_connected_ws message ws g) =
      (if connected g (Message.config_name message) = None
       then Some (ProjectNoFoundException (Message.config_name message)) else None)) \<and>
   (\<forall>s. connected g (Message.config_name message) = Some s \<longrightarrow>
      connected (snd (register_connected_ws message ws g)) =
        (connected g)(Message.config_name message \<mapsto> insert ws s) \<and>
      connected_message (snd (register_connected_ws message ws g)) =
        (connected_message g)(ws \<mapsto> message) \<and>
      config_store_state (snd (register_connected_ws message ws g)) = config_store_state g \<and>
      (ws \<in> s \<longrightarrow> connected (snd (register_connected_ws message ws g)) = connected g) \<and>
      register_connected_ws message ws (snd (register_connected_ws message ws g)) =
        register_connected_ws message ws g)"
proof (cases "connected g (Message.config_name message)")
  case None
  then show ?thesis by (simp add: register_unknown)
next
  case (Some s)
  let ?g' = "g\<lparr>connected := (connected g)(Message.config_name message \<mapsto> insert ws s),
              connected_message := (connected_message g)(ws \<mapsto> message)\<rparr>"
  have 1: "register_connected_ws message ws g = (None, ?g')"
    using Some by (rule register_known)
  have "connected ?g' (Message.config_name message) = Some (insert ws s)" by simp
  then have 2: "register_connected_ws message ws ?g' = (None, ?g')"
    by (simp add: register_known)
  show ?thesis using Some 1 2 by (auto simp: insert_absorb fun_upd_idem)
qed

theorem register_connected_ws_spec_witness:
  "connected example_globals (Message.config_name example_message) = Some {} \<and>
   fst (register_connected_ws example_message (7::nat) example_globals) = None \<and>
   connected (snd (register_connected_ws example_message 7 example_globals)) ''app'' = Some {7} \<and>
   connected_message (snd (register_connected_ws example_message 7 example_globals)) 7 =
     Some example_message \<and>
   register_connected_ws example_message 7
     (snd (register_connected_ws example_message 7 example_globals)) =
     register_connected_ws example_message 7 example_globals"
  using register_connected_ws_spec [of example_message 7 example_globals]
  by (simp add: example_globals_def example_message_def)

text \<open>
  Claim C10.  When \<open>message.config_name\<close> has no entry in \<open>connected\<close>, the call raises the
  config-not-found exception and leaves the globals, in particular \<open>connected\<close> and
  \<open>connected_message\<close>, exactly as they were.
\<close>

theorem register_unknown_atomic:
  "connected g (Message.config_name message) = None \<Longrightarrow>
   fst (register_connected_ws message ws g) =
     Some (ProjectNoFoundException (Message.config_name message)) \<and>
   snd (register_connected_ws message ws g) = g \<and>
   connected (snd (register_connected_ws message ws g)) = connected g \<and>
   connected_message (snd (register_connected_ws message ws g)) = connected_message g"
  by (simp add: register_unknown)

theorem register_unknown_atomic_witness:
  "connected example_globals (Message.config_name stray_message) = None \<and>
   register_connected_ws stray_message (7::nat) example_globals =
     (Some (ProjectNoFoundException ''missing''), example_globals)"
proof -
  have h: "connected example_globals
             (Message.config_name stray_message) = None"
    by (simp add: example_globals_def stray_message_def)
  have n: "Message.config_name stray_message = ''missing''"
    by (simp add: stray_message_def)
  show ?thesis
    using h register_unknown_atomic [OF h, of 7]
    by (simp add: prod_eq_iff n)
qed

text \<open>
  Claim C6.  \<open>remove_connected_ws\<close> never raises, for any config name and connection.  It
  takes the connection out of the named subscriber set when the set exists, deletes its
  entry of \<open>connected_message\<close>, changes nothing where the name, the member or the entry is
  absent, and a second removal leaves the state of the first.
\<close>

theorem remove_connected_ws_never_raises:
  "fst (remove_connected_ws name ws g) = None \<and>
   connected (snd (remove_connected_ws name ws g)) =
     (case connected g name of
        None \<Rightarrow> connected g
      | Some s \<Rightarrow> (connected g)(name \<mapsto> s - {ws})) \<and>
   connected_message (snd (remove_connected_ws name ws g)) = (connected_message g)(ws := None) \<and>
   config_store_state (snd (remove_connected_ws name ws g)) = config_store_state g \<and>
   (connected g name = None \<longrightarrow> connected (snd (remove_connected_ws name ws g)) = connected g) \<and>
   (\<forall>s. connected g name = Some s \<and> ws \<notin> s \<longrightarrow>
        connected (snd (remove_connected_ws name ws g)) = connected g) \<and>
   (connected_message g ws = None \<longrightarrow>
      connected_message (snd (remove_connected_ws name ws g)) = connected_message g) \<and>
   remove_connected_ws name ws (snd (remove_connected_ws name ws g)) =
     remove_connected_ws name ws g"
proof -
  let ?g' = "snd (remove_connected_ws name ws g)"
  have idem: "remove_connected_ws name ws ?g' = remove_connected_ws name ws g"
    by (cases "connected g name") (simp_all add: remove_connected_ws_eq)
  show ?thesis
    using idem by (auto simp add: remove_connected_ws_eq map_upd_triv fun_upd_idem)
qed

theorem remove_connected_ws_never_raises_witness:
  "connected example_globals ''missing'' = None \<and>
   connected example_globals ''app'' = Some {} \<and> (3::nat) \<notin> {} \<and>
   connected_message example_globals 3 = None \<and>
   remove_connected_ws ''missing'' 3 example_globals = (None, example_globals) \<and>
   remove_connected_ws ''app'' 3 example_globals = (None, example_globals) \<and>
   remove_connected_ws ''app'' 3 (snd (remove_connected_ws ''app'' 3 example_globals)) =
     (None, example_globals)"
  using remove_connected_ws_never_raises [of "''missing''" 3 example_globals]
    remove_connected_ws_never_raises [of "''app''" 3 example_globals]
  by (simp add: example_globals_def remove_connected_ws_eq)

text \<open>
  Claim C8.  For a message with a known config name, \<open>register_connected_ws\<close> followed by
  \<open>remove_connected_ws\<close> for that name leaves the connection out of the config's subscriber
  set and out of \<open>connected_message\<close>.
\<close>

theorem register_then_remove:
  "connected g (Message.config_name msg) = Some s \<Longrightarrow>
   fst (register_connected_ws msg conn g) = None \<and>
   connected (snd (remove_connected_ws (Message.config_name msg) conn
                     (snd (register_connected_ws msg conn g)))) (Message.config_name msg) =
     Some (s - {conn}) \<and>
   connected_message (snd (remove_connected_ws (Message.config_name msg) conn
                     (snd (register_connected_ws msg conn g)))) conn = None"
  by (simp add: register_known remove_connected_ws_eq)

theorem register_then_remove_witness:
  "connected example_globals (Message.config_name example_message) = Some {} \<and>
   connected (snd (remove_connected_ws ''app'' 7
                     (snd (register_connected_ws example_message (7::nat) example_globals)))) ''app'' =
     Some {} \<and>
   connected_message (snd (remove_connected_ws ''app'' 7
                     (snd (register_connected_ws example_message 7 example_globals)))) 7 = None"
proof -
  have h: "connected example_globals (Message.config_name example_message) = Some {}"
    by (simp add: example_globals_def example_message_def)
  have n: "Message.config_name example_message = ''app''"
    by (simp add: example_message_def)
  show ?thesis
    using h register_then_remove [OF h, of 7] by (simp add: n)
qed

text \<open>
  Claim C7.  Starting from a consistent state, after any finite sequence of register and
  remove calls every connection with an entry in \<open>connected_message\<close> is a member of the
  subscriber set of the config name recorded in its stored message.
\<close>

theorem registry_run_consistent:
  "registry_consistent g \<Longrightarrow> registry_consistent (registry_run calls g)"
  unfolding registry_run_def
  by (induction calls arbitrary: g) (simp_all add: registry_step_consistent)

theorem registry_run_consistent_witness:
  "registry_consistent example_globals \<and>
   registry_consistent
     (registry_run [Register example_message 1, Register example_message 2,
                    Remove ''app'' 1, Remove ''other'' 5, Register example_message 2]
        example_globals) \<and>
   connected_message
     (registry_run [Register example_message 1, Register example_message 2,
                    Remove ''app'' 1, Remove ''other'' 5, Register example_message 2]
        example_globals) (2::nat) = Some example_message"
proof -
  have h: "registry_consistent example_globals"
    by (simp add: registry_consistent_def example_globals_def)
  have "connected_message
     (registry_run [Register example_message 1, Register example_message 2,
                    Remove ''app'' 1, Remove ''other'' 5, Register example_message 2]
        example_globals) (2::nat) = Some example_message"
    by (simp add: registry_run_def remove_connected_ws_eq register_connected_ws_def
          dict_getitem_def example_globals_def example_message_def)
  then show ?thesis
    using h registry_run_consistent [OF h] by simp
qed

section \<open>Message\<close>




text \<open>Messages built without \<open>context\<close> hold one and the same default dict: \<open>to_dict\<close> on
  one of them puts its request headers into the context of the other.\<close>

lemma to_dict_default_context_shared:
  "context_field (Message_init r1 t1 n1 c1 d1 None l1) =
     context_field (Message_init r2 t2 n2 c2 d2 None l2) \<and>
   snd (snd (to_dict dumps_indent strftime indent (Message_init r1 t1 n1 c1 d1 None l1) h))
       (context_field (Message_init r2 t2 n2 c2 d2 None l2)) =
     dict_setitem (h default_context) ''headers''
       (JObj (dict_of (map (\<lambda>(k, v). (k, JStr v)) (headers r1))))"
  by (simp add: Message_init_def to_dict_def Let_def)

section \<open>ConfigManager\<close>

text \<open>
  Claim C3.  When the backend \<open>write\<close> raises during \<open>update_config\<close>, the exception reaches
  the caller, no callback runs, and the manager, hence its \<open>source_data\<close> and its
  \<open>hash_code\<close>, is as it was before the call.
\<close>

theorem update_config_write_fails:
  "backend_write store_backend st (source_data self) = (Some e, st') \<Longrightarrow>
   update_config store_backend call handlers self st w = (Some e, self, st', w, []) \<and>
   source_data (fst (snd (update_config store_backend call handlers self st w))) =
     source_data self \<and>
   cm_hash_code hf (fst (snd (update_config store_backend call handlers self st w))) =
     cm_hash_code hf self"
  by (simp add: update_config_def)

theorem update_config_write_fails_witness:
  "backend_write failing_backend [] (source_data example_manager) =
     (Some (External ''disk full''), []) \<and>
   update_config failing_backend example_call [1, 2] example_manager [] (0::nat) =
     (Some (External ''disk full''), example_manager, [], 0, [])"
proof -
  have h: "backend_write failing_backend [] (source_data example_manager) =
     (Some (External ''disk full''), [])"
    by (simp add: failing_backend_def)
  show ?thesis
    using h update_config_write_fails [OF h, of example_call "[1, 2]" 0 "to_hash example_digest"]
    by simp
qed

text \<open>In an update with \<open>D\<close> the setter has run before \<open>write\<close> is called: when \<open>write\<close>
  raises, the manager holds \<open>D\<close>, its value at the call of \<open>update_config\<close>.\<close>

lemma update_write_fails_holds_new_document:
  "backend_write store_backend st D = (Some e, st') \<Longrightarrow>
   update store_backend call handlers D self st w =
     (Some e, self\<lparr>source_data := D\<rparr>, st', w, [])"
  by (simp add: update_def update_config_def source_data_setter_def)

text \<open>A \<open>read\<close> that raises in \<open>refresh\<close> leaves the manager unchanged as well.\<close>

lemma update_config_read_fails:
  "backend_write store_backend st (source_data self) = (None, st') \<Longrightarrow>
   backend_read store_backend st' = Inl e \<Longrightarrow>
   update_config store_backend call handlers self st w = (Some e, self, st', w, [])"
  by (simp add: update_config_def refresh_def)







section \<open>Dispatch\<close>






text \<open>
  The loop runs over the set itself: when another task removes a connection while a send
  is awaited, the next step of the iteration raises \<open>RuntimeError\<close>, though no send has
  raised, and connection \<open>2\<close> is sent nothing.
\<close>

lemma notify_changed_set_changed:
  "notify_changed racing_surroundings example_manager (dispatch_globals, []) =
     Some (Some RuntimeError,
           dispatch_globals\<lparr>connected := [''app'' \<mapsto> {1, 2}],
                            connected_message := [1 \<mapsto> current_message, 2 \<mapsto> current_message],
                            config_store_state := [''app'' \<mapsto> example_manager]\<rparr>,
           [(1, ''message_type:changed;config_name:app;hash_code:a:?;;data:a:?;;'')])"
  apply (simp add: notify_changed_def Let_def dispatch_globals_def example_manager_def)
  apply (subst notify_clients.simps)
  apply (simp add: live_clients_def racing_surroundings_def example_resume_def
      current_message_def cm_hash_code_def to_hash_def client_send_def registry_run_def)
  apply (subst notify_clients.simps)
  apply (simp add: live_clients_def remove_connected_ws_def except_KeyError_pass_def
      remove_from_set_def remove_message_def dict_getitem_def dict_delitem_def set_remove_def
      config_message_def message_string_def MT_CHANGED_def cm_hash_code_def to_hash_def
      insert_Diff_if)
  done



section \<open>The fingerprint\<close>

lemma sort_key_fst_unique:
  fixes xs ys :: "('k::linorder \<times> 'v) list"
  assumes dx: "distinct (map fst xs)" and dy: "distinct (map fst ys)" and s: "set xs = set ys"
  shows "sort_key fst xs = sort_key fst ys"
proof (rule map_sorted_distinct_set_unique [where f = fst])
  from dx have ix: "inj_on fst (set xs)" by (simp add: distinct_map)
  from dy have iy: "inj_on fst (set ys)" by (simp add: distinct_map)
  show "inj_on fst (set (sort_key fst xs) \<union> set (sort_key fst ys))"
    using ix s by simp
  show "sorted (map fst (sort_key fst xs))" by (rule sorted_sort_key)
  show "sorted (map fst (sort_key fst ys))" by (rule sorted_sort_key)
  show "distinct (map fst (sort_key fst xs))"
    using dx ix by (simp add: distinct_map)
  show "distinct (map fst (sort_key fst ys))"
    using dy iy by (simp add: distinct_map)
  show "set (sort_key fst xs) = set (sort_key fst ys)"
    using s by simp
qed

lemma same_keys:
  assumes dx: "distinct (map fst xs)" and dy: "distinct (map fst ys)"
    and len: "length xs = length ys"
    and sub: "fst ` set xs \<subseteq> fst ` set ys"
  shows "fst ` set xs = fst ` set ys"
proof (rule card_subset_eq)
  show "finite (fst ` set ys)" by simp
  show "fst ` set xs \<subseteq> fst ` set ys" by (rule sub)
  have "card (fst ` set xs) = length (map fst xs)"
    using dx by (metis distinct_card set_map)
  moreover have "card (fst ` set ys) = length (map fst ys)"
    using dy by (metis distinct_card set_map)
  ultimately show "card (fst ` set xs) = card (fst ` set ys)"
    using len by simp
qed

lemma canonical_same_content:
  "dict_keys_ok a \<Longrightarrow> dict_keys_ok b \<Longrightarrow> same_content a b \<Longrightarrow> canonical a = canonical b"
proof (induction a b rule: same_content.induct)
  case (1 xs ys)
  let ?f = "\<lambda>(k, v). (k, canonical v)"
  from "1.prems" have dx: "distinct (map fst xs)" and dy: "distinct (map fst ys)"
    and okx: "\<And>k v. (k, v) \<in> set xs \<Longrightarrow> dict_keys_ok v"
    and oky: "\<And>k v. (k, v) \<in> set ys \<Longrightarrow> dict_keys_ok v"
    and len: "length xs = length ys"
    and m: "\<And>k v. (k, v) \<in> set xs \<Longrightarrow> \<exists>w. (k, w) \<in> set ys \<and> same_content v w"
    by auto
  have ih: "canonical v = canonical w"
    if "(k, v) \<in> set xs" "(k', w) \<in> set ys" "same_content v w" for k v k' w
    using "1.IH" [OF that(1) refl that(2) refl] okx [OF that(1)] oky [OF that(2)] that(3)
    by simp
  have fwd: "?f ` set xs \<subseteq> ?f ` set ys"
  proof
    fix p assume "p \<in> ?f ` set xs"
    then obtain k v where kv: "(k, v) \<in> set xs" and p: "p = (k, canonical v)" by auto
    from m [OF kv] obtain w where w: "(k, w) \<in> set ys" "same_content v w" by blast
    from ih [OF kv w] have "p = ?f (k, w)" using p by simp
    then show "p \<in> ?f ` set ys" using w(1) by blast
  qed
  have "fst ` set xs \<subseteq> fst ` set ys"
  proof
    fix k assume "k \<in> fst ` set xs"
    then obtain v where kv: "(k, v) \<in> set xs" by auto
    from m [OF kv] show "k \<in> fst ` set ys" by force
  qed
  then have keys: "fst ` set xs = fst ` set ys"
    using dx dy len by (rule same_keys [rotated 3])
  have bwd: "?f ` set ys \<subseteq> ?f ` set xs"
  proof
    fix p assume "p \<in> ?f ` set ys"
    then obtain k w where kw: "(k, w) \<in> set ys" and p: "p = (k, canonical w)" by auto
    from kw have "k \<in> fst ` set ys" by force
    with keys have "k \<in> fst ` set xs" by simp
    then obtain v where kv: "(k, v) \<in> set xs" by force
    from m [OF kv] obtain w' where w': "(k, w') \<in> set ys" "same_content v w'" by blast
    from dy kw w'(1) have "w' = w" by (meson eq_key_imp_eq_value)
    with ih [OF kv kw] w'(2) have "p = ?f (k, v)" using p by simp
    then show "p \<in> ?f ` set xs" using kv by blast
  qed
  have fst_f: "map fst (map ?f zs) = map fst zs" for zs :: "(string \<times> json) list"
    by (induction zs) auto
  have "sort_key fst (map ?f xs) = sort_key fst (map ?f ys)"
  proof (rule sort_key_fst_unique)
    show "distinct (map fst (map ?f xs))" using dx by (simp only: fst_f)
    show "distinct (map fst (map ?f ys))" using dy by (simp only: fst_f)
    show "set (map ?f xs) = set (map ?f ys)" using fwd bwd by auto
  qed
  then show ?case by simp
next
  case (2 xs ys)
  from "2.prems" have l: "list_all2 same_content xs ys"
    and okx: "\<And>x. x \<in> set xs \<Longrightarrow> dict_keys_ok x"
    and oky: "\<And>y. y \<in> set ys \<Longrightarrow> dict_keys_ok y"
    by auto
  from l have len: "length xs = length ys" by (rule list_all2_lengthD)
  have "map canonical xs = map canonical ys"
  proof (rule nth_equalityI)
    show "length (map canonical xs) = length (map canonical ys)" using len by simp
  next
    fix i assume "i < length (map canonical xs)"
    then have i: "i < length xs" "i < length ys" using len by simp_all
    from l i have "same_content (xs ! i) (ys ! i)" by (simp add: list_all2_nthD)
    moreover have "xs ! i \<in> set xs" "ys ! i \<in> set ys" using i by simp_all
    ultimately have "canonical (xs ! i) = canonical (ys ! i)"
      using "2.IH" okx oky by blast
    then show "map canonical xs ! i = map canonical ys ! i" using i by simp
  qed
  then show ?case by simp
qed simp_all

text \<open>
  Claim C9.  For documents with the same key/value content, whatever the order in which
  their keys were inserted, the manager's \<open>hash_code\<close> is the same; it is a function of the
  document alone, so two computations over the same document agree.
\<close>

theorem hash_code_key_order_independent:
  assumes "dict_keys_ok (JObj (source_data A))" and "dict_keys_ok (JObj (source_data B))"
    and "same_content (JObj (source_data A)) (JObj (source_data B))"
  shows "cm_hash_code (to_hash digest) A = cm_hash_code (to_hash digest) B"
  using canonical_same_content [OF assms] by (simp add: cm_hash_code_def to_hash_def)

theorem hash_code_key_order_independent_witness:
  "dict_keys_ok (JObj (source_data reordered_manager)) \<and>
   dict_keys_ok (JObj (source_data sorted_manager)) \<and>
   same_content (JObj (source_data reordered_manager)) (JObj (source_data sorted_manager)) \<and>
   source_data reordered_manager \<noteq> source_data sorted_manager \<and>
   example_digest (JObj (source_data reordered_manager)) \<noteq>
     example_digest (JObj (source_data sorted_manager)) \<and>
   cm_hash_code (to_hash example_digest) reordered_manager = ''a:?;b:x:?;y:?;;'' \<and>
   cm_hash_code (to_hash example_digest) sorted_manager = ''a:?;b:x:?;y:?;;''"
proof -
  have a: "dict_keys_ok (JObj (source_data reordered_manager))"
    by (simp add: reordered_manager_def)
  have b: "dict_keys_ok (JObj (source_data sorted_manager))"
    by (simp add: sorted_manager_def)
  have c: "same_content (JObj (source_data reordered_manager)) (JObj (source_data sorted_manager))"
    by (simp add: reordered_manager_def sorted_manager_def)
  have d: "cm_hash_code (to_hash example_digest) sorted_manager = ''a:?;b:x:?;y:?;;''"
    by (simp add: cm_hash_code_def to_hash_def sorted_manager_def)
  have e: "source_data reordered_manager \<noteq> source_data sorted_manager"
    "example_digest (JObj (source_data reordered_manager)) \<noteq>
       example_digest (JObj (source_data sorted_manager))"
    by (simp_all add: reordered_manager_def sorted_manager_def)
  show ?thesis
    using a b c d e hash_code_key_order_independent [OF a b c, of example_digest] by simp
qed

end
